theory Spec2Isabelle
  imports Main "HOL-Library.Word"
begin

unbundle bit_operations_syntax

section \<open>Font tables (writer.py, module level)\<close>

text \<open>
  A font is a Python \<^verbatim>\<open>bytearray\<close> (main.py passes \<^verbatim>\<open>font6._font\<close>, and
  \<^verbatim>\<open>draw_char\<close> takes a \<^verbatim>\<open>memoryview\<close> of it): a list of bytes.  Reading
  an element gives a Python integer in \<open>0..255\<close>; all further arithmetic is on unbounded
  integers.
\<close>

type_synonym font = "8 word list"

datatype error = IndexError

text \<open>
  Sequencing of fallible reads: the first exception raised propagates.
\<close>

definition and_then :: "error + 'a \<Rightarrow> ('a \<Rightarrow> error + 'b) \<Rightarrow> error + 'b" where
  "and_then m f = (case m of Inl e \<Rightarrow> Inl e | Inr v \<Rightarrow> f v)"

text \<open>
  \<^verbatim>\<open>font[i]\<close>: a negative index counts from the end, an index outside
  \<open>-len..len-1\<close> raises \<^verbatim>\<open>IndexError\<close>.
\<close>

definition getitem :: "font \<Rightarrow> int \<Rightarrow> error + int" where
  "getitem b i =
     (let n = int (length b); j = (if i < 0 then n + i else i)
      in if 0 \<le> j \<and> j < n then Inr (uint (b ! nat j)) else Inl IndexError)"

text \<open>The header constants of writer.py, lines 41 to 48.\<close>

abbreviation (input) TWO_BYTE_INDEX :: int where "TWO_BYTE_INDEX \<equiv> 0"
abbreviation (input) ONE_BYTE_INDEX :: int where "ONE_BYTE_INDEX \<equiv> 1"
abbreviation (input) MAX_CHARS :: int where "MAX_CHARS \<equiv> 2"
abbreviation (input) HEIGHT :: int where "HEIGHT \<equiv> 3"
abbreviation (input) WIDTH :: int where "WIDTH \<equiv> 4"
abbreviation (input) MISSING :: int where "MISSING \<equiv> 5"
abbreviation (input) LAST_CHAR :: int where "LAST_CHAR \<equiv> 7"

text \<open>
  The test \<^verbatim>\<open>letter >= font[_LAST_CHAR] or letter < font[_MISSING + 2]\<close> of lines 59,
  66 and 193: \<^verbatim>\<open>or\<close> reads its right operand only when the left one is false.
\<close>

definition is_missing :: "font \<Rightarrow> int \<Rightarrow> error + bool" where
  "is_missing font letter =
     and_then (getitem font LAST_CHAR) (\<lambda>last.
       if letter \<ge> last then Inr True
       else and_then (getitem font (MISSING + 2)) (\<lambda>first. Inr (letter < first)))"

text \<open>
  The returned expression of line 72,
  \<^verbatim>\<open>offset + index + 1 + (font[_LAST_CHAR] - font[_MISSING + 2]) * (font[font[_MAX_CHARS]] == _TWO_BYTE_INDEX)\<close>;
  a Python \<^verbatim>\<open>bool\<close> multiplies as 0 or 1.
\<close>

definition skip_width :: "font \<Rightarrow> int \<Rightarrow> int \<Rightarrow> error + int" where
  "skip_width font offset index =
     and_then (getitem font LAST_CHAR) (\<lambda>last.
     and_then (getitem font (MISSING + 2)) (\<lambda>first.
     and_then (getitem font MAX_CHARS) (\<lambda>base.
     and_then (getitem font base) (\<lambda>mode.
       Inr (offset + index + 1 + (last - first) * (if mode = TWO_BYTE_INDEX then 1 else 0))))))"

text \<open>\<^verbatim>\<open>_get_char_addr(font, letter)\<close>, lines 55 to 72.\<close>

definition get_char_addr :: "font \<Rightarrow> int \<Rightarrow> error + int" where
  "get_char_addr font letter =
     and_then (getitem font MAX_CHARS) (\<lambda>index.
     and_then (getitem font index) (\<lambda>mode.
       if mode = TWO_BYTE_INDEX then
         (let index = index + 1 in
          and_then (is_missing font letter) (\<lambda>miss.
          and_then (if miss then getitem font MISSING else Inr letter) (\<lambda>letter.
          and_then (getitem font (MISSING + 2)) (\<lambda>first.
            let letter = letter - first;
                idx = index + letter * 2
            in and_then (getitem font idx) (\<lambda>hi.
               and_then (getitem font (idx + 1)) (\<lambda>lo.
                 let offset = push_bit 8 hi OR lo
                 in skip_width font offset index))))))
       else
         (let index = index + 1 in
          and_then (is_missing font letter) (\<lambda>miss.
          and_then (if miss then getitem font MISSING else Inr letter) (\<lambda>letter.
          and_then (getitem font (MISSING + 2)) (\<lambda>first.
            let letter = letter - first;
                idx = index + letter
            in and_then (getitem font idx) (\<lambda>offset.
                 skip_width font offset index)))))))"

section \<open>The display (ili9341.py)\<close>

text \<open>
  The surface a Writer draws on is the ILI9341 driver object.  Its Python attributes are
  \<^verbatim>\<open>width\<close> and \<^verbatim>\<open>height\<close>; what its methods send over the bus is kept as a log of
  the two surface operations (\<^verbatim>\<open>_set_window\<close>, then \<^verbatim>\<open>_write_data\<close> of packed
  pixels), and the controller's pixel memory they address is kept as \<open>gram\<close>.  A colour is
  packed by \<^verbatim>\<open>ustruct.pack(">H", color)\<close>, that is its low 16 bits.
\<close>

datatype bus_op =
    SetWindow int int int int
  | WritePixels int "16 word"

record display =
  d_width :: int
  d_height :: int
  bus :: "bus_op list"
  gram :: "int \<times> int \<Rightarrow> 16 word"

text \<open>\<^verbatim>\<open>ILI9341.pixel(x, y, color)\<close>: nothing is sent for a point outside the surface.\<close>

definition pixel :: "display \<Rightarrow> int \<Rightarrow> int \<Rightarrow> int \<Rightarrow> display" where
  "pixel self x y color =
     (if \<not> (0 \<le> x \<and> x < d_width self \<and> 0 \<le> y \<and> y < d_height self) then self
      else self\<lparr>bus := bus self @ [SetWindow x y x y, WritePixels 1 (word_of_int color)],
                gram := (gram self)((x, y) := word_of_int color)\<rparr>)"

text \<open>
  \<^verbatim>\<open>ILI9341.fill_rectangle(x, y, w, h, color)\<close>: the rectangle is clamped to the surface,
  one window is set, and \<open>w * h\<close> pixels are written in chunks of 256; the controller
  stores them row by row inside the window.
\<close>

definition fill_rectangle :: "display \<Rightarrow> int \<Rightarrow> int \<Rightarrow> int \<Rightarrow> int \<Rightarrow> int \<Rightarrow> display" where
  "fill_rectangle self x y w h color =
     (let x = min (d_width self - 1) (max 0 x);
          y = min (d_height self - 1) (max 0 y);
          w = min (d_width self - x) (max 1 w);
          h = min (d_height self - y) (max 1 h);
          pixels_per_chunk = 512 div 2;
          num_pixels = w * h;
          remaining_pixels = num_pixels mod pixels_per_chunk
      in self\<lparr>bus := bus self @ [SetWindow x y (x + w - 1) (y + h - 1)]
                    @ replicate (nat (num_pixels div pixels_per_chunk))
                        (WritePixels pixels_per_chunk (word_of_int color))
                    @ (if remaining_pixels > 0
                       then [WritePixels remaining_pixels (word_of_int color)] else []),
                gram := (\<lambda>(px, py).
                    if x \<le> px \<and> px \<le> x + w - 1 \<and> y \<le> py \<and> py \<le> y + h - 1
                    then word_of_int color else gram self (px, py))\<rparr>)"

text \<open>\<^verbatim>\<open>ILI9341.fill(color)\<close>.\<close>

definition fill :: "display \<Rightarrow> int \<Rightarrow> display" where
  "fill self color = fill_rectangle self 0 0 (d_width self) (d_height self) color"

section \<open>Drawing one glyph (Writer.draw_char)\<close>

text \<open>
  A statement returns no value or raises; the device it wrote to so far is returned in
  both cases.  \<open>for_each\<close> is a \<^verbatim>\<open>for\<close> loop over the given values: an exception in
  the body leaves the loop.
\<close>

fun for_each :: "'i list \<Rightarrow> ('i \<Rightarrow> 's \<Rightarrow> (error + unit) \<times> 's) \<Rightarrow> 's \<Rightarrow> (error + unit) \<times> 's" where
  "for_each [] body s = (Inr (), s)"
| "for_each (i # rest) body s =
     (case body i s of
        (Inl e, s') \<Rightarrow> (Inl e, s')
      | (Inr _, s') \<Rightarrow> for_each rest body s')"

text \<open>\<^verbatim>\<open>range(n)\<close> for an integer \<open>n\<close>: empty when \<open>n \<le> 0\<close>.\<close>

definition range_py :: "int \<Rightarrow> int list" where
  "range_py n = [0..n - 1]"

text \<open>
  The tests of lines 101 and 108, \<^verbatim>\<open>fnt[offset + (row * width + col) // 8] & (1 << (col % 8))\<close>
  and \<^verbatim>\<open>fnt[offset + (col * height + row) // 8] & (1 << (row % 8))\<close>, as truth values
  (a number is true when it is not zero); \<open>offset\<close> is the address of the glyph's data.
\<close>

definition bit_landscape :: "font \<Rightarrow> int \<Rightarrow> int \<Rightarrow> int \<Rightarrow> int \<Rightarrow> error + bool" where
  "bit_landscape fnt offset width row col =
     and_then (getitem fnt (offset + (row * width + col) div 8)) (\<lambda>b.
       Inr (b AND push_bit (nat (col mod 8)) 1 \<noteq> 0))"

definition bit_normal :: "font \<Rightarrow> int \<Rightarrow> int \<Rightarrow> int \<Rightarrow> int \<Rightarrow> error + bool" where
  "bit_normal fnt offset height row col =
     and_then (getitem fnt (offset + (col * height + row) div 8)) (\<lambda>b.
       Inr (b AND push_bit (nat (row mod 8)) 1 \<noteq> 0))"

text \<open>The body of the inner loop in landscape orientation, lines 100 to 104.\<close>

definition cell_landscape ::
  "font \<Rightarrow> int \<Rightarrow> int \<Rightarrow> int \<Rightarrow> int \<Rightarrow> int \<Rightarrow> int option \<Rightarrow> int \<Rightarrow> int \<Rightarrow> display
     \<Rightarrow> (error + unit) \<times> display" where
  "cell_landscape fnt offset width x y color bgcolor row col display =
     (case bit_landscape fnt offset width row col of
        Inl e \<Rightarrow> (Inl e, display)
      | Inr is_set \<Rightarrow>
          if is_set
          then (Inr (), pixel display (x + row) (y + width - col - 1) color)
          else (case bgcolor of
                  Some bg \<Rightarrow> (Inr (), pixel display (x + row) (y + width - col - 1) bg)
                | None \<Rightarrow> (Inr (), display)))"

text \<open>The body of the inner loop in normal orientation, lines 108 to 111.\<close>

definition cell_normal ::
  "font \<Rightarrow> int \<Rightarrow> int \<Rightarrow> int \<Rightarrow> int \<Rightarrow> int \<Rightarrow> int option \<Rightarrow> int \<Rightarrow> int \<Rightarrow> display
     \<Rightarrow> (error + unit) \<times> display" where
  "cell_normal fnt offset height x y color bgcolor row col display =
     (case bit_normal fnt offset height row col of
        Inl e \<Rightarrow> (Inl e, display)
      | Inr is_set \<Rightarrow>
          if is_set
          then (Inr (), pixel display (x + col) (y + row) color)
          else (case bgcolor of
                  Some bg \<Rightarrow> (Inr (), pixel display (x + col) (y + row) bg)
                | None \<Rightarrow> (Inr (), display)))"

text \<open>
  What \<^verbatim>\<open>draw_char\<close> returns: \<^verbatim>\<open>True\<close> from the early return of line 93, the glyph's
  width otherwise.
\<close>

datatype drawn = PyTrue | Width int

text \<open>
  \<^verbatim>\<open>Writer.draw_char(char_code, x, y, _display, _font, _color, _bgcolor, _landscape, _reverse)\<close>,
  lines 85 to 112.  \<^verbatim>\<open>_reverse\<close> is not read.
\<close>

definition draw_char ::
  "int \<Rightarrow> int \<Rightarrow> int \<Rightarrow> display \<Rightarrow> font \<Rightarrow> int \<Rightarrow> int option \<Rightarrow> bool \<Rightarrow> bool
     \<Rightarrow> (error + drawn) \<times> display" where
  "draw_char char_code x y display fnt color bgcolor landscape reverse =
     (case getitem fnt HEIGHT of
        Inl e \<Rightarrow> (Inl e, display)
      | Inr height \<Rightarrow>
     (case get_char_addr fnt char_code of
        Inl e \<Rightarrow> (Inl e, display)
      | Inr offset \<Rightarrow>
          if offset = 0 then (Inr PyTrue, display)
          else
     (case getitem fnt offset of
        Inl e \<Rightarrow> (Inl e, display)
      | Inr width \<Rightarrow>
          let offset = offset + 1 in
          (case (if landscape
                 then for_each (range_py height) (\<lambda>row.
                        for_each (range_py width)
                          (cell_landscape fnt offset width x y color bgcolor row)) display
                 else for_each (range_py height) (\<lambda>row.
                        for_each (range_py width)
                          (cell_normal fnt offset height x y color bgcolor row)) display) of
             (Inl e, d) \<Rightarrow> (Inl e, d)
           | (Inr _, d) \<Rightarrow> (Inr (Width width), d)))))"

section \<open>The Writer (writer.py, class Writer)\<close>

text \<open>
  A Python string is the list of its code points, so \<^verbatim>\<open>ord\<close> of one of its characters
  is the list element itself.
\<close>

type_synonym str = "int list"

text \<open>
  The attributes \<^verbatim>\<open>__init__\<close> sets, each under its Python name after \<open>self_\<close>; the
  lines \<^verbatim>\<open>print\<close> wrote are kept in \<open>stdout\<close>.
\<close>

record writer =
  self_device :: display
  self_font :: font
  self_text_color :: int
  self_bgcolor :: "int option"
  self_x :: int
  self_y :: int
  self_usd :: bool
  self_landscape :: bool
  self_reverse :: bool
  self_clip :: bool
  self_ha :: bool
  self_va :: bool
  self_height :: int
  self_max_width :: int
  self_baseline :: int
  self_map_space :: bool
  stdout :: "string list"

text \<open>
  \<^verbatim>\<open>Writer.__init__(device, font, color=1, bgcolor=0, verbose=True)\<close>, lines 118 to 151,
  for a display and a font (neither is an \<^verbatim>\<open>int\<close>, so lines 148 to 151 change nothing).
\<close>

definition init :: "display \<Rightarrow> font \<Rightarrow> int \<Rightarrow> int option \<Rightarrow> bool \<Rightarrow> error + writer" where
  "init device font color bgcolor verbose =
     and_then (getitem font HEIGHT) (\<lambda>height.
     and_then (getitem font WIDTH) (\<lambda>max_width.
       Inr \<lparr>self_device = device, self_font = font, self_text_color = color,
            self_bgcolor = bgcolor, self_x = 0, self_y = 0, self_usd = False,
            self_landscape = False, self_reverse = False, self_clip = verbose,
            self_ha = True, self_va = False, self_height = height,
            self_max_width = max_width, self_baseline = height - 1,
            self_map_space = True, stdout = []\<rparr>))"

text \<open>\<^verbatim>\<open>Writer.set_textpos(device, x=None, y=None)\<close>, lines 156 to 168.\<close>

definition set_textpos :: "writer \<Rightarrow> display \<Rightarrow> int option \<Rightarrow> int option \<Rightarrow> writer" where
  "set_textpos self device x y =
     (let x = (case x of None \<Rightarrow> d_width device div 2 | Some x \<Rightarrow> x);
          y = (case y of None \<Rightarrow> d_height device div 2 | Some y \<Rightarrow> y)
      in self\<lparr>self_x := x, self_y := y\<rparr>)"

text \<open>\<^verbatim>\<open>Writer._char_width(char_code)\<close>, lines 182 to 198.\<close>

definition char_width :: "writer \<Rightarrow> int \<Rightarrow> error + int" where
  "char_width self char_code =
     and_then (get_char_addr (self_font self) char_code) (\<lambda>addr.
       if addr = 0 then Inr 0
       else
         let char_code =
               (if self_map_space self \<and> char_code = of_char (CHR '' '')
                then of_char (CHR ''0'') else char_code)
         in and_then (is_missing (self_font self) char_code) (\<lambda>miss.
            and_then (if miss then getitem (self_font self) MISSING else Inr char_code)
              (\<lambda>char_code.
            and_then (get_char_addr (self_font self) char_code) (\<lambda>addr.
              let offset = addr - 1
              in getitem (self_font self) offset))))"

text \<open>\<^verbatim>\<open>Writer.stringlen(s)\<close>, lines 171 to 175: the loop with its accumulator \<open>l\<close>.\<close>

fun stringlen_loop :: "writer \<Rightarrow> str \<Rightarrow> int \<Rightarrow> error + int" where
  "stringlen_loop self [] l = Inr l"
| "stringlen_loop self (char_code # s) l =
     and_then (char_width self char_code) (\<lambda>w. stringlen_loop self s (l + w))"

definition stringlen :: "writer \<Rightarrow> str \<Rightarrow> error + int" where
  "stringlen self s = stringlen_loop self s 0"

text \<open>
  \<^verbatim>\<open>Writer.clear_screen()\<close>, lines 201 to 205; the display has a \<^verbatim>\<open>fill\<close> method.
\<close>

definition clear_screen :: "writer \<Rightarrow> writer" where
  "clear_screen self =
     self\<lparr>self_device :=
              fill (self_device self) (case self_bgcolor self of Some bg \<Rightarrow> bg | None \<Rightarrow> 0),
          self_x := 0, self_y := 0\<rparr>"

text \<open>
  The wrapping step of \<^verbatim>\<open>_printchar\<close>, lines 222 to 228, for a character of the given
  width.
\<close>

definition wrap_text :: "writer \<Rightarrow> int \<Rightarrow> writer" where
  "wrap_text self width =
     (if self_x self + width > d_width (self_device self) then
        (let self = self\<lparr>self_x := 0, self_y := self_y self + self_height self\<rparr>
         in if self_y self \<ge> d_height (self_device self) then clear_screen self else self)
      else self)"

text \<open>
  The rest of \<^verbatim>\<open>_printchar\<close>, lines 229 to 244: the two clipping tests (the module's
  \<^verbatim>\<open>_VERBOSE\<close> is \<^verbatim>\<open>True\<close>), then the call of \<^verbatim>\<open>draw_char\<close> and the advance of
  \<^verbatim>\<open>self.x\<close> by \<open>width\<close>.  What \<^verbatim>\<open>draw_char\<close> returns is dropped.
\<close>

definition clip_and_draw :: "writer \<Rightarrow> int \<Rightarrow> int \<Rightarrow> (error + unit) \<times> writer" where
  "clip_and_draw self char_code width =
     (if self_y self + self_height self < 0 then
        (Inr (), if self_clip self
                 then self\<lparr>stdout := stdout self @ [''Font too tall for screen'']\<rparr>
                 else self)
      else if self_y self \<ge> d_height (self_device self) then
        (Inr (), if self_clip self
                 then self\<lparr>stdout := stdout self @ [''Font off bottom of screen'']\<rparr>
                 else self)
      else
        (case draw_char char_code (self_x self) (self_y self) (self_device self)
                (self_font self) (self_text_color self) (self_bgcolor self)
                (self_landscape self) (self_reverse self) of
           (Inl e, d) \<Rightarrow> (Inl e, self\<lparr>self_device := d\<rparr>)
         | (Inr _, d) \<Rightarrow> (Inr (), self\<lparr>self_device := d, self_x := self_x self + width\<rparr>)))"

text \<open>\<^verbatim>\<open>Writer._printchar(char_code)\<close>, lines 215 to 244.\<close>

definition printchar :: "writer \<Rightarrow> int \<Rightarrow> (error + unit) \<times> writer" where
  "printchar self char_code =
     (case char_width self char_code of
        Inl e \<Rightarrow> (Inl e, self)
      | Inr width \<Rightarrow>
          if width = 0 then (Inr (), self)
          else clip_and_draw (wrap_text self width) char_code width)"

text \<open>\<^verbatim>\<open>Writer.printstring(s)\<close>, lines 209 to 211.\<close>

definition printstring :: "writer \<Rightarrow> str \<Rightarrow> (error + unit) \<times> writer" where
  "printstring self s = for_each s (\<lambda>char_code self. printchar self char_code) self"

section \<open>The rotated bit index as the specification words it\<close>

text \<open>
  Following the specification's words for the rotated orientation, "bit index =
  \<open>row * w + col\<close>" in a bitmap packed 8 bits per byte: the byte is
  \<open>(row * w + col) div 8\<close> and the bit inside it is \<open>(row * w + col) mod 8\<close>, counted
  from the least significant bit as the source's mask \<^verbatim>\<open>1 << n\<close> does.  It is
  compared with \<open>bit_landscape\<close>, which is the source's test.
\<close>

definition spec_bit_landscape :: "font \<Rightarrow> int \<Rightarrow> int \<Rightarrow> int \<Rightarrow> int \<Rightarrow> error + bool" where
  "spec_bit_landscape fnt offset width row col =
     and_then (getitem fnt (offset + (row * width + col) div 8)) (\<lambda>b.
       Inr (b AND push_bit (nat ((row * width + col) mod 8)) 1 \<noteq> 0))"

section \<open>Example fonts, displays and writers\<close>

text \<open>
  A font with a one-byte index.  Byte 2 holds 8, the address of the index mode byte; byte 3
  is the height 8, byte 4 the maximum width 6, byte 5 the missing code 63, byte 7 the last
  code; byte 8 is the mode (1), byte 9 the directory entry read for every letter (offset
  1), so \<^verbatim>\<open>_get_char_addr\<close> gives 11.  Byte 10 is what \<^verbatim>\<open>_char_width\<close> reads (6), byte 11
  the width \<^verbatim>\<open>draw_char\<close> reads (6), bytes 12 to 17 the six columns of the glyph, of
  which only the top pixel of the first column is set.
\<close>

definition font6x8 :: font where
  "font6x8 = [0, 0, 8, 8, 6, 63, 32, 63, 1, 1, 6, 6, 1, 0, 0, 0, 0, 0]"

text \<open>
  The same table with a two-byte index: byte 8 is the mode (0), bytes 9 and 10 the
  big-endian directory entry (offset 6), so the address is 16; byte 15 and byte 16 are both
  6, bytes 17 to 22 the glyph.
\<close>

definition font6x8_two_byte :: font where
  "font6x8_two_byte =
     [0, 0, 8, 8, 6, 63, 32, 63, 0, 0, 6, 0, 0, 0, 0, 6, 6, 1, 0, 0, 0, 0, 0]"

text \<open>
  A font of height 7 whose glyph is 5 wide for \<^verbatim>\<open>draw_char\<close> (byte 11) while
  \<^verbatim>\<open>_char_width\<close> reads 6 (byte 10).  Its first data byte, byte 12, is \<open>0x20\<close>: of the
  packed bits 0 to 7, only bit 5 is set.
\<close>

definition font5x7 :: font where
  "font5x7 = [0, 0, 8, 7, 5, 63, 32, 63, 1, 1, 6, 5, 32, 0, 0, 0, 0]"

text \<open>A font whose only glyph has width 0 for both readers (bytes 10 and 11).\<close>

definition font_empty_glyph :: font where
  "font_empty_glyph = [0, 0, 8, 8, 6, 63, 32, 63, 1, 1, 0, 0]"


text \<open>
  A table with a one-byte index for the codes 32 to 63 (first code 32 in byte 6, last code
  64 in byte 7, missing code 63), laid out for \<^verbatim>\<open>_char_width\<close>, which takes the width
  from the byte before the address.  Bytes 9 to 40 are the directory: the space (byte 9)
  has offset 32, the character \<^verbatim>\<open>'0'\<close> (byte 25) offset 33, every other code the offset
  40 of the missing glyph.  With the source's arithmetic \<open>offset + 9 + 1\<close> the space has
  the address 42 and the width byte 41, which is 0; \<^verbatim>\<open>'0'\<close> has the address 43 and the
  width byte 42, which is 6, followed by six bytes of data; the missing glyph has the
  address 50 and the width byte 49, which is 4, followed by four bytes of data.
\<close>

definition font_space :: font where
  "font_space =
     [0, 0, 8, 8, 6, 63, 32, 64, 1,
      32, 40, 40, 40, 40, 40, 40, 40, 40, 40, 40, 40, 40, 40, 40, 40,
      33, 40, 40, 40, 40, 40, 40, 40, 40, 40, 40, 40, 40, 40, 40, 40,
      0,
      6, 62, 81, 73, 69, 62, 0,
      4, 2, 81, 9, 6]"

text \<open>Displays filled with red (\<open>0xF800\<close>), nothing sent yet.\<close>

definition red240x8 :: display where
  "red240x8 = \<lparr>d_width = 240, d_height = 8, bus = [], gram = (\<lambda>_. 0xF800)\<rparr>"

definition red240x320 :: display where
  "red240x320 = \<lparr>d_width = 240, d_height = 320, bus = [], gram = (\<lambda>_. 0xF800)\<rparr>"

text \<open>
  The writer \<^verbatim>\<open>Writer(device, font)\<close> builds, with the default colours 1 and 0.
\<close>

definition new_writer :: "display \<Rightarrow> font \<Rightarrow> int \<Rightarrow> int \<Rightarrow> writer" where
  "new_writer device font height max_width =
     \<lparr>self_device = device, self_font = font, self_text_color = 1,
      self_bgcolor = Some 0, self_x = 0, self_y = 0, self_usd = False,
      self_landscape = False, self_reverse = False, self_clip = True,
      self_ha = True, self_va = False, self_height = height,
      self_max_width = max_width, self_baseline = height - 1,
      self_map_space = True, stdout = []\<rparr>"

text \<open>The 240 by 8 surface of the scenario, the cursor set to (238, 0).\<close>

definition w238 :: writer where
  "w238 = set_textpos (new_writer red240x8 font6x8 8 6) red240x8 (Some 238) (Some 0)"

text \<open>The state after \<^verbatim>\<open>_printchar('A')\<close> from there.\<close>

definition w238_after_A :: writer where
  "w238_after_A = snd (printchar w238 65)"

text \<open>The same cursor on a surface 320 pixels high.\<close>

definition w238_tall :: writer where
  "w238_tall = set_textpos (new_writer red240x320 font6x8 8 6) red240x320 (Some 238) (Some 0)"

section \<open>Facts about the font table\<close>

lemmas font_reads = getitem_def and_then_def is_missing_def skip_width_def get_char_addr_def

lemma init_new_writer:
  "getitem font HEIGHT = Inr h \<Longrightarrow> getitem font WIDTH = Inr mw \<Longrightarrow>
   init device font 1 (Some 0) True = Inr (new_writer device font h mw)"
  by (simp add: init_def new_writer_def and_then_def)

lemma getitem_nonneg: "getitem font i = Inr v \<Longrightarrow> 0 \<le> v"
  by (auto simp: getitem_def Let_def split: if_splits)

text \<open>
  Lines 59, 66 and 193 compare the letter with \<^verbatim>\<open>font[_LAST_CHAR]\<close> and with
  \<^verbatim>\<open>font[_MISSING + 2]\<close>.  Both are byte 7, so the test never fails: no code lies inside
  the range, and every letter is replaced by the missing code.
\<close>

lemma is_missing_True: "is_missing font c = Inr m \<Longrightarrow> m"
  by (auto simp: is_missing_def and_then_def split: sum.splits if_splits)

lemma get_char_addr_any: "get_char_addr font c = get_char_addr font c'"
  by (auto simp add: get_char_addr_def and_then_def is_missing_def Let_def split: sum.splits)

lemma skip_width_eq:
  "skip_width font offset index = Inr a \<Longrightarrow> a = offset + index + 1"
  by (auto simp: skip_width_def and_then_def split: sum.splits)

lemma get_char_addr_lower:
  assumes "get_char_addr font c = Inr a"
  shows "\<exists>base. getitem font MAX_CHARS = Inr base \<and> base + 2 \<le> a"
proof -
  from assms obtain base where b: "getitem font MAX_CHARS = Inr base"
    by (auto simp: get_char_addr_def and_then_def split: sum.splits)
  from assms b obtain offset where s: "skip_width font offset (base + 1) = Inr a"
    and o: "0 \<le> offset"
    by (fastforce simp: get_char_addr_def and_then_def Let_def
        dest: getitem_nonneg split: sum.splits if_splits)
  from skip_width_eq[OF s] o have "base + 2 \<le> a" by simp
  with b show ?thesis by blast
qed

lemma get_char_addr_nonzero: "get_char_addr font c = Inr a \<Longrightarrow> a \<noteq> 0"
  using get_char_addr_lower[of font c a] getitem_nonneg[of font 2] by auto

text \<open>
  Hence \<^verbatim>\<open>_char_width\<close> is the byte before the address of the letter, whatever
  \<^verbatim>\<open>map_space\<close> is.
\<close>

lemma char_width_eq:
  "char_width self c =
     and_then (get_char_addr (self_font self) c) (\<lambda>addr. getitem (self_font self) (addr - 1))"
proof (cases "get_char_addr (self_font self) c")
  case (Inl e)
  then show ?thesis by (simp add: char_width_def and_then_def)
next
  case (Inr a)
  then have nz: "a \<noteq> 0" by (rule get_char_addr_nonzero)
  have any: "\<And>c'. get_char_addr (self_font self) c' = Inr a"
    using Inr get_char_addr_any[of "self_font self" _ c] by simp
  from Inr obtain m where m: "getitem (self_font self) MISSING = Inr m"
    by (auto simp: get_char_addr_def and_then_def is_missing_def Let_def
        split: sum.splits if_splits)
  from Inr have im: "\<And>c'. is_missing (self_font self) c' = Inr True"
    by (auto simp: get_char_addr_def and_then_def is_missing_def Let_def
        split: sum.splits if_splits)
  show ?thesis
    by (simp add: char_width_def and_then_def Inr nz any m im Let_def)
qed

lemma char_width_cong:
  "self_font s' = self_font s \<Longrightarrow> char_width s' c = char_width s c"
  by (simp add: char_width_eq)

section \<open>Facts about the display and the loops\<close>

lemma pixel_dims [simp]:
  "d_width (pixel d x y c) = d_width d" "d_height (pixel d x y c) = d_height d"
  by (simp_all add: pixel_def)

lemma fill_dims [simp]:
  "d_width (fill d c) = d_width d" "d_height (fill d c) = d_height d"
  by (simp_all add: fill_def fill_rectangle_def Let_def)

lemma gram_fill:
  assumes "0 \<le> px" "px < d_width d" "0 \<le> py" "py < d_height d"
  shows "gram (fill d c) (px, py) = word_of_int c"
  using assms by (simp add: fill_def fill_rectangle_def Let_def min_def max_def)

lemma gram_pixel_other: "(qx, qy) \<noteq> p \<Longrightarrow> gram (pixel d qx qy c) p = gram d p"
  by (simp add: pixel_def)

lemma bus_pixel:
  "bus (pixel d qx qy c) = bus d \<or>
   bus (pixel d qx qy c) = bus d @ [SetWindow qx qy qx qy, WritePixels 1 (word_of_int c)]"
  by (simp add: pixel_def)

text \<open>A property every step of a loop keeps holds when the loop is left.\<close>

lemma for_each_inv:
  assumes "for_each xs body s = (r, s')" and "P s"
    and "\<And>i t r' t'. i \<in> set xs \<Longrightarrow> P t \<Longrightarrow> body i t = (r', t') \<Longrightarrow> P t'"
  shows "P s'"
  using assms
proof (induction xs arbitrary: s)
  case Nil
  then show ?case by simp
next
  case (Cons i rest)
  obtain r1 s1 where b: "body i s = (r1, s1)" by (cases "body i s")
  have p1: "P s1" using Cons.prems(2,3) b by auto
  show ?case
  proof (cases r1)
    case (Inl e)
    with Cons.prems(1) b p1 show ?thesis by simp
  next
    case (Inr u)
    with Cons.prems(1) b have "for_each rest body s1 = (r, s')" by simp
    then show ?thesis using p1 Cons.prems(3) by (rule Cons.IH) auto
  qed
qed

lemma set_range_py: "i \<in> set (range_py n) \<longleftrightarrow> 0 \<le> i \<and> i < n"
  by (auto simp: range_py_def)

lemma cell_dims:
  "cell_landscape fnt offset width x y color bgcolor row col d = (r, d') \<Longrightarrow>
     d_width d' = d_width d \<and> d_height d' = d_height d"
  "cell_normal fnt offset height x y color bgcolor row col d = (r, d') \<Longrightarrow>
     d_width d' = d_width d \<and> d_height d' = d_height d"
  by (auto simp: cell_landscape_def cell_normal_def split: sum.splits if_splits option.splits)

text \<open>Drawing a glyph never changes the size of the surface.\<close>

lemma draw_char_dims:
  assumes "draw_char char_code x y d fnt color bgcolor landscape reverse = (r, d')"
  shows "d_width d' = d_width d \<and> d_height d' = d_height d"
proof -
  define P where "P t \<longleftrightarrow> d_width t = d_width d \<and> d_height t = d_height d" for t :: display
  have loops: "P t'"
    if "(if landscape
         then for_each (range_py height) (\<lambda>row.
                for_each (range_py width)
                  (cell_landscape fnt offset width x y color bgcolor row)) d
         else for_each (range_py height) (\<lambda>row.
                for_each (range_py width)
                  (cell_normal fnt offset height x y color bgcolor row)) d) = (r', t')"
    for height width offset r' t'
  proof (cases landscape)
    case True
    with that have l: "for_each (range_py height) (\<lambda>row.
                for_each (range_py width)
                  (cell_landscape fnt offset width x y color bgcolor row)) d = (r', t')" by simp
    show ?thesis
    proof (rule for_each_inv[where P = P, OF l])
      show "P d" by (simp add: P_def)
    next
      fix i t r1 t1
      assume t: "P t" and inner: "for_each (range_py width)
            (cell_landscape fnt offset width x y color bgcolor i) t = (r1, t1)"
      show "P t1"
        by (rule for_each_inv[where P = P, OF inner t]) (auto simp: P_def dest: cell_dims)
    qed
  next
    case False
    with that have l: "for_each (range_py height) (\<lambda>row.
                for_each (range_py width)
                  (cell_normal fnt offset height x y color bgcolor row)) d = (r', t')" by simp
    show ?thesis
    proof (rule for_each_inv[where P = P, OF l])
      show "P d" by (simp add: P_def)
    next
      fix i t r1 t1
      assume t: "P t" and inner: "for_each (range_py width)
            (cell_normal fnt offset height x y color bgcolor i) t = (r1, t1)"
      show "P t1"
        by (rule for_each_inv[where P = P, OF inner t]) (auto simp: P_def dest: cell_dims)
    qed
  qed
  have "P d'"
    using assms loops
    by (auto simp: draw_char_def Let_def P_def split: sum.splits prod.splits if_splits)
  then show ?thesis by (simp add: P_def)
qed

section \<open>Resolving a character code\<close>


text \<open>
  C10.  An address \<^verbatim>\<open>_get_char_addr\<close> returns is at least \<^verbatim>\<open>font[_MAX_CHARS] + 2\<close>
  (a byte, so not negative), hence never 0.  So \<^verbatim>\<open>draw_char\<close> never takes its early
  return of \<^verbatim>\<open>True\<close>, it returns the width 0 only when the width byte it reads at the
  address is 0, and \<^verbatim>\<open>_char_width\<close> returns 0 only when the byte before the address is 0.
\<close>

theorem get_char_addr_never_zero:
  "(\<forall>addr. get_char_addr font char_code = Inr addr \<longrightarrow>
        (\<exists>base. getitem font MAX_CHARS = Inr base \<and> 0 \<le> base \<and> base + 2 \<le> addr)
        \<and> addr \<noteq> 0)
   \<and> fst (draw_char char_code x y d font color bgcolor landscape reverse) \<noteq> Inr PyTrue
   \<and> (fst (draw_char char_code x y d font color bgcolor landscape reverse) = Inr (Width 0) \<longrightarrow>
        (\<exists>addr. get_char_addr font char_code = Inr addr \<and> getitem font addr = Inr 0))
   \<and> (self_font self = font \<longrightarrow> char_width self char_code = Inr 0 \<longrightarrow>
        (\<exists>addr. get_char_addr font char_code = Inr addr \<and> getitem font (addr - 1) = Inr 0))"
proof (intro conjI allI impI)
  fix addr assume "get_char_addr font char_code = Inr addr"
  then show "\<exists>base. getitem font MAX_CHARS = Inr base \<and> 0 \<le> base \<and> base + 2 \<le> addr"
    using get_char_addr_lower getitem_nonneg by blast
next
  fix addr assume "get_char_addr font char_code = Inr addr"
  then show "addr \<noteq> 0" by (rule get_char_addr_nonzero)
next
  show "fst (draw_char char_code x y d font color bgcolor landscape reverse) \<noteq> Inr PyTrue"
    by (auto simp: draw_char_def Let_def dest: get_char_addr_nonzero
        split: sum.splits prod.splits)
next
  assume "fst (draw_char char_code x y d font color bgcolor landscape reverse) = Inr (Width 0)"
  then show "\<exists>addr. get_char_addr font char_code = Inr addr \<and> getitem font addr = Inr 0"
    by (auto simp: draw_char_def Let_def split: sum.splits prod.splits if_splits)
next
  assume "self_font self = font" "char_width self char_code = Inr 0"
  then show "\<exists>addr. get_char_addr font char_code = Inr addr \<and> getitem font (addr - 1) = Inr 0"
    by (auto simp: char_width_eq and_then_def split: sum.splits)
qed

theorem get_char_addr_never_zero_witness:
  "get_char_addr font6x8 65 = Inr 11 \<and> getitem font6x8 MAX_CHARS = Inr 8
   \<and> fst (draw_char 65 0 0 red240x8 font6x8 1 (Some 0) False False) \<noteq> Inr PyTrue
   \<and> char_width (new_writer red240x8 font_empty_glyph 8 6) 65 = Inr 0
   \<and> get_char_addr font_empty_glyph 65 = Inr 11
   \<and> getitem font_empty_glyph (11 - 1) = Inr 0"
proof -
  have 1: "get_char_addr font6x8 65 = Inr 11" by (simp add: font6x8_def font_reads)
  have 2: "getitem font6x8 MAX_CHARS = Inr 8" by (simp add: font6x8_def getitem_def)
  have 3: "char_width (new_writer red240x8 font_empty_glyph 8 6) 65 = Inr 0"
    by (simp add: char_width_def new_writer_def font_empty_glyph_def font_reads)
  have 4: "get_char_addr font_empty_glyph 65 = Inr 11"
    by (simp add: font_empty_glyph_def font_reads)
  have 5: "self_font (new_writer red240x8 font_empty_glyph 8 6) = font_empty_glyph"
    by (simp add: new_writer_def)
  from get_char_addr_never_zero[of font6x8 65 0 0 red240x8 1 "Some 0" False False
      "new_writer red240x8 font6x8 8 6"]
  have a: "fst (draw_char 65 0 0 red240x8 font6x8 1 (Some 0) False False) \<noteq> Inr PyTrue"
    by blast
  from get_char_addr_never_zero[of font_empty_glyph 65 0 0 red240x8 1 "Some 0" False False
      "new_writer red240x8 font_empty_glyph 8 6"] 3 4 5
  have b: "getitem font_empty_glyph (11 - 1) = Inr 0" by auto
  from 1 2 3 4 a b show ?thesis by blast
qed

section \<open>Widths\<close>

text \<open>
  C8.  The claim fails on \<open>font_space\<close>, in which the glyph the directory lists for
  \<^verbatim>\<open>'0'\<close> is 6 wide and the one it lists for the space is 0 wide.  The test of line 193
  replaces every code, the \<^verbatim>\<open>'0'\<close> just put in for the space included, by the missing
  code, and \<^verbatim>\<open>_get_char_addr\<close> then reads the directory at \<open>9 + (63 - 64) = 8\<close>: the
  address is 11 for every code and the width is byte 10, a directory entry, 40.  So
  \<^verbatim>\<open>stringlen(" ")\<close> is 40 with \<^verbatim>\<open>map_space\<close> set, not 6, and the space is 40 wide
  with \<^verbatim>\<open>map_space\<close> not set, not 0.
\<close>

theorem stringlen_space_ignores_glyph_widths:
  "getitem font_space (9 + (48 - 32)) = Inr 33 \<and> getitem font_space (33 + 9 + 1 - 1) = Inr 6
   \<and> getitem font_space (9 + (32 - 32)) = Inr 32 \<and> getitem font_space (32 + 9 + 1 - 1) = Inr 0
   \<and> self_map_space (new_writer red240x8 font_space 8 6)
   \<and> get_char_addr font_space 32 = Inr 11
   \<and> stringlen (new_writer red240x8 font_space 8 6) [of_char (CHR '' '')] = Inr 40
   \<and> char_width ((new_writer red240x8 font_space 8 6)\<lparr>self_map_space := False\<rparr>)
        (of_char (CHR '' '')) = Inr 40"
proof -
  have a: "get_char_addr font_space c = Inr 11" for c
    using get_char_addr_any[of font_space c 63] by (simp add: font_space_def font_reads)
  have w: "char_width s c = Inr 40" if "self_font s = font_space" for s c
    by (simp add: char_width_eq that a and_then_def) (simp add: font_space_def getitem_def)
  have 1: "stringlen (new_writer red240x8 font_space 8 6) [of_char (CHR '' '')] = Inr 40"
    by (simp add: stringlen_def and_then_def w new_writer_def)
  have 2: "char_width ((new_writer red240x8 font_space 8 6)\<lparr>self_map_space := False\<rparr>)
        (of_char (CHR '' '')) = Inr 40"
    by (rule w) (simp add: new_writer_def)
  have g: "getitem font_space (9 + (48 - 32)) = Inr 33"
    "getitem font_space (33 + 9 + 1 - 1) = Inr 6"
    "getitem font_space (9 + (32 - 32)) = Inr 32"
    "getitem font_space (32 + 9 + 1 - 1) = Inr 0"
    "self_map_space (new_writer red240x8 font_space 8 6)"
    by (simp_all add: font_space_def getitem_def new_writer_def)
  from g a[of 32] 1 2 show ?thesis by simp
qed

section \<open>The cursor\<close>

text \<open>The example writers, field by field, and the width every code has in \<open>font6x8\<close>.\<close>

lemma w238_tall_fields:
  "self_x w238_tall = 238" "self_y w238_tall = 0" "self_height w238_tall = 8"
  "d_width (self_device w238_tall) = 240" "d_height (self_device w238_tall) = 320"
  "self_font w238_tall = font6x8"
  by (simp_all add: w238_tall_def set_textpos_def new_writer_def red240x320_def)

lemma w238_fields:
  "self_x w238 = 238" "self_y w238 = 0" "self_height w238 = 8"
  "d_width (self_device w238) = 240" "d_height (self_device w238) = 8"
  "self_font w238 = font6x8" "self_bgcolor w238 = Some 0"
  "gram (self_device w238) = (\<lambda>_. 0xF800)"
  by (simp_all add: w238_def set_textpos_def new_writer_def red240x8_def)

lemma char_width_font6x8:
  "self_font s = font6x8 \<Longrightarrow> char_width s c = Inr 6"
  by (simp add: char_width_eq and_then_def get_char_addr_any[of font6x8 c 63])
     (simp add: font6x8_def font_reads)

text \<open>
  C9.  A character whose width \<^verbatim>\<open>_char_width\<close> gives as 0 is consumed with no effect
  at all: \<^verbatim>\<open>_printchar\<close> returns normally and the writer is the one it was, cursor,
  display memory, bus log and printed lines included; so nothing is sent to the surface
  and neither the wrap nor the clearing of the screen happens.
\<close>

theorem zero_width_char_is_noop:
  assumes "char_width self char_code = Inr 0"
  shows "printchar self char_code = (Inr (), self)"
  using assms by (simp add: printchar_def)

theorem zero_width_char_is_noop_witness:
  "char_width (new_writer red240x8 font_empty_glyph 8 6) 65 = Inr 0
   \<and> printchar (new_writer red240x8 font_empty_glyph 8 6) 65
       = (Inr (), new_writer red240x8 font_empty_glyph 8 6)"
proof -
  have 1: "char_width (new_writer red240x8 font_empty_glyph 8 6) 65 = Inr 0"
    by (simp add: char_width_def new_writer_def font_empty_glyph_def font_reads)
  from zero_width_char_is_noop[OF 1] 1 show ?thesis by simp
qed

text \<open>
  C4.  For a character of width \<open>w\<close>, not 0, with \<open>x + w\<close> beyond the width of the
  surface, the state \<^verbatim>\<open>_printchar\<close> goes on to clip and draw from is the wrapped one:
  its \<open>x\<close> is 0 and its \<open>y\<close> is the old \<open>y\<close> plus \<^verbatim>\<open>self.height\<close> (the font's height
  that \<^verbatim>\<open>__init__\<close> stored), unless that reaches the height of the surface, in which case
  the screen is cleared and \<open>y\<close> is 0.
\<close>

theorem wrap_before_draw:
  assumes "char_width self char_code = Inr w" and "w \<noteq> 0"
    and "self_x self + w > d_width (self_device self)"
  shows "printchar self char_code = clip_and_draw (wrap_text self w) char_code w
       \<and> self_x (wrap_text self w) = 0
       \<and> self_y (wrap_text self w) =
           (if self_y self + self_height self \<ge> d_height (self_device self) then 0
            else self_y self + self_height self)"
  using assms by (simp add: printchar_def wrap_text_def clear_screen_def Let_def)

theorem wrap_before_draw_witness:
  "char_width w238_tall 65 = Inr 6 \<and> self_x w238_tall = 238
   \<and> d_width (self_device w238_tall) = 240
   \<and> printchar w238_tall 65 = clip_and_draw (wrap_text w238_tall 6) 65 6
   \<and> self_x (wrap_text w238_tall 6) = 0 \<and> self_y (wrap_text w238_tall 6) = 8"
proof -
  have 1: "char_width w238_tall 65 = Inr 6"
    by (rule char_width_font6x8) (simp add: w238_tall_fields)
  have 2: "(6::int) \<noteq> 0" by simp
  have 3: "self_x w238_tall + 6 > d_width (self_device w238_tall)"
    by (simp add: w238_tall_fields)
  from wrap_before_draw[OF 1 2 3] 1 show ?thesis by (simp add: w238_tall_fields)
qed

text \<open>
  C3.  For a character of width \<open>w\<close>, not 0, that wraps, if the new \<open>y\<close> reaches the
  height of the surface, then the state \<^verbatim>\<open>_printchar\<close> goes on to clip and draw from has
  the cursor at (0, 0) and its display is the old one filled with the background colour
  (0 when the background is \<^verbatim>\<open>None\<close>): every pixel of the surface holds that colour.
\<close>

theorem scroll_clear_before_draw:
  assumes "char_width self char_code = Inr w" and "w \<noteq> 0"
    and "self_x self + w > d_width (self_device self)"
    and "self_y self + self_height self \<ge> d_height (self_device self)"
    and "0 \<le> px" "px < d_width (self_device self)" "0 \<le> py" "py < d_height (self_device self)"
  shows "printchar self char_code = clip_and_draw (wrap_text self w) char_code w
       \<and> self_x (wrap_text self w) = 0 \<and> self_y (wrap_text self w) = 0
       \<and> self_device (wrap_text self w) =
           fill (self_device self) (case self_bgcolor self of Some bg \<Rightarrow> bg | None \<Rightarrow> 0)
       \<and> gram (self_device (wrap_text self w)) (px, py) =
           word_of_int (case self_bgcolor self of Some bg \<Rightarrow> bg | None \<Rightarrow> 0)"
  using assms by (simp add: printchar_def wrap_text_def clear_screen_def Let_def gram_fill)

theorem scroll_clear_before_draw_witness:
  "char_width w238 65 = Inr 6 \<and> gram (self_device w238) (100, 5) = 0xF800
   \<and> printchar w238 65 = clip_and_draw (wrap_text w238 6) 65 6
   \<and> self_x (wrap_text w238 6) = 0 \<and> self_y (wrap_text w238 6) = 0
   \<and> gram (self_device (wrap_text w238 6)) (100, 5) = 0"
proof -
  have 1: "char_width w238 65 = Inr 6"
    by (rule char_width_font6x8) (simp add: w238_fields)
  have 2: "(6::int) \<noteq> 0" by simp
  have 3: "self_x w238 + 6 > d_width (self_device w238)" by (simp add: w238_fields)
  have 4: "self_y w238 + self_height w238 \<ge> d_height (self_device w238)"
    by (simp add: w238_fields)
  have 5: "(0::int) \<le> 100" "100 < d_width (self_device w238)"
    "(0::int) \<le> 5" "5 < d_height (self_device w238)"
    by (simp_all add: w238_fields)
  have 6: "gram (self_device w238) (100, 5) = 0xF800" by (simp add: w238_fields)
  have 7: "word_of_int (case self_bgcolor w238 of Some bg \<Rightarrow> bg | None \<Rightarrow> 0) = (0 :: 16 word)"
    by (simp add: w238_fields)
  from scroll_clear_before_draw[OF 1 2 3 4 5] 1 6 show ?thesis unfolding 7 by blast
qed

section \<open>The rasterizer\<close>

text \<open>Unfolding the loops of \<^verbatim>\<open>draw_char\<close> on a given font.\<close>

lemmas draw_reads = draw_char_def range_py_def upto.simps cell_normal_def cell_landscape_def
  bit_normal_def bit_landscape_def

lemma fst_draw_char_font6x8:
  "fst (draw_char c x y d font6x8 color bgcolor False rv) = Inr (Width 6)"
proof -
  have a: "get_char_addr font6x8 c = Inr 11"
    using get_char_addr_any[of font6x8 c 63] by (simp add: font6x8_def font_reads)
  show ?thesis
    using a unfolding font6x8_def
    by (cases bgcolor) (simp_all add: draw_reads getitem_def and_then_def)
qed

text \<open>What \<^verbatim>\<open>_printchar\<close> does once a character is neither clipped nor fails to draw.\<close>

lemma clip_and_draw_drawn:
  assumes "\<not> self_y self + self_height self < 0"
    and "\<not> self_y self \<ge> d_height (self_device self)"
    and "fst (draw_char c (self_x self) (self_y self) (self_device self) (self_font self)
           (self_text_color self) (self_bgcolor self) (self_landscape self)
           (self_reverse self)) = Inr r"
  shows "fst (clip_and_draw self c w) = Inr ()
       \<and> self_x (snd (clip_and_draw self c w)) = self_x self + w
       \<and> self_y (snd (clip_and_draw self c w)) = self_y self
       \<and> self_font (snd (clip_and_draw self c w)) = self_font self
       \<and> self_device (snd (clip_and_draw self c w)) =
           snd (draw_char c (self_x self) (self_y self) (self_device self) (self_font self)
             (self_text_color self) (self_bgcolor self) (self_landscape self)
             (self_reverse self))"
proof (cases "draw_char c (self_x self) (self_y self) (self_device self) (self_font self)
           (self_text_color self) (self_bgcolor self) (self_landscape self)
           (self_reverse self)")
  case (Pair res d)
  with assms(3) have "res = Inr r" by simp
  with Pair assms(1,2) show ?thesis by (simp add: clip_and_draw_def)
qed

text \<open>A glyph whose width byte is 0 sends nothing to the surface.\<close>

lemma draw_char_empty_glyph:
  assumes "get_char_addr fnt char_code = Inr addr" and "getitem fnt addr = Inr 0"
    and "getitem fnt HEIGHT = Inr height"
  shows "draw_char char_code x y d fnt color bgcolor landscape reverse = (Inr (Width 0), d)"
proof -
  have inner: "for_each (range_py 0) body t = (Inr (), t)"
    for body :: "int \<Rightarrow> display \<Rightarrow> (error + unit) \<times> display" and t
    by (simp add: range_py_def)
  have outer: "for_each rows (\<lambda>row. for_each (range_py 0) (body row)) t = (Inr (), t)"
    for rows :: "int list" and body :: "int \<Rightarrow> int \<Rightarrow> display \<Rightarrow> (error + unit) \<times> display" and t
    by (induction rows) (simp_all add: inner)
  have nz: "addr \<noteq> 0" using assms(1) by (rule get_char_addr_nonzero)
  show ?thesis
    by (cases landscape) (simp_all add: draw_char_def assms nz outer Let_def)
qed

text \<open>
  The source's rotated test reads the packed bit \<open>row * width + col\<close> exactly when
  \<open>row * width\<close> is a multiple of 8.
\<close>

lemma bit_landscape_agrees:
  assumes "(row * width) mod 8 = 0"
  shows "bit_landscape fnt offset width row col = spec_bit_landscape fnt offset width row col"
proof -
  have "(row * width + col) mod 8 = col mod 8"
    using assms by presburger
  then show ?thesis by (simp add: bit_landscape_def spec_bit_landscape_def)
qed

text \<open>
  With the background \<^verbatim>\<open>None\<close>, in either orientation, take a cell of the glyph whose
  bit the source's own test reads as unset.  Whatever \<^verbatim>\<open>draw_char\<close> returns or raises,
  the pixel that cell is drawn to holds afterwards what it held before, no window was set
  on it, and every pixel value sent during the call is the text colour.
\<close>

lemma transparent_background_source_test:
  assumes draw: "draw_char char_code x y d font color None landscape reverse = (r, d')"
    and h: "getitem font HEIGHT = Inr height"
    and a: "get_char_addr font char_code = Inr addr"
    and w: "getitem font addr = Inr width"
    and cell: "0 \<le> row" "row < height" "0 \<le> col" "col < width"
    and unset: "(if landscape then bit_landscape font (addr + 1) width row col
                 else bit_normal font (addr + 1) height row col) = Inr False"
    and p: "p = (if landscape then (x + row, y + width - col - 1) else (x + col, y + row))"
  shows "gram d' p = gram d p
       \<and> (\<exists>ops. bus d' = bus d @ ops
              \<and> SetWindow (fst p) (snd p) (fst p) (snd p) \<notin> set ops
              \<and> (\<forall>n c. WritePixels n c \<in> set ops \<longrightarrow> c = word_of_int color))"
proof -
  define P where "P t \<longleftrightarrow> gram t p = gram d p
       \<and> (\<exists>ops. bus t = bus d @ ops
              \<and> SetWindow (fst p) (snd p) (fst p) (snd p) \<notin> set ops
              \<and> (\<forall>n c. WritePixels n c \<in> set ops \<longrightarrow> c = word_of_int color))"
    for t :: display
  have P0: "P d" by (simp add: P_def)
  have Ppix: "P (pixel t qx qy color)" if "P t" "(qx, qy) \<noteq> p" for t qx qy
  proof -
    from that(1) obtain ops where g: "gram t p = gram d p" and b: "bus t = bus d @ ops"
      and n: "SetWindow (fst p) (snd p) (fst p) (snd p) \<notin> set ops"
      and c: "\<forall>n c. WritePixels n c \<in> set ops \<longrightarrow> c = word_of_int color"
      by (auto simp: P_def)
    have g': "gram (pixel t qx qy color) p = gram d p"
      using g that(2) by (simp add: gram_pixel_other)
    from bus_pixel[of t qx qy color] show ?thesis
    proof
      assume "bus (pixel t qx qy color) = bus t"
      with g' b n c show ?thesis unfolding P_def by auto
    next
      assume e: "bus (pixel t qx qy color) =
          bus t @ [SetWindow qx qy qx qy, WritePixels 1 (word_of_int color)]"
      let ?ops = "ops @ [SetWindow qx qy qx qy, WritePixels 1 (word_of_int color)]"
      have "bus (pixel t qx qy color) = bus d @ ?ops" using e b by simp
      moreover have "SetWindow (fst p) (snd p) (fst p) (snd p) \<notin> set ?ops"
        using n that(2) by (cases p) auto
      moreover have "\<forall>n c. WritePixels n c \<in> set ?ops \<longrightarrow> c = word_of_int color"
        using c by auto
      ultimately show ?thesis unfolding P_def using g' by blast
    qed
  qed
  have nz: "addr \<noteq> 0" using a by (rule get_char_addr_nonzero)
  show ?thesis
  proof (cases landscape)
    case True
    have step: "P t'" if "0 \<le> row'" "row' < height" "0 \<le> col'" "col' < width" "P t"
      "cell_landscape font (addr + 1) width x y color None row' col' t = (r', t')"
      for row' col' t r' t'
    proof (cases "bit_landscape font (addr + 1) width row' col'")
      case (Inl e)
      with that show ?thesis by (simp add: cell_landscape_def)
    next
      case (Inr b)
      show ?thesis
      proof (cases b)
        case False
        with Inr that show ?thesis by (simp add: cell_landscape_def)
      next
        case b: True
        have "(row', col') \<noteq> (row, col)" using Inr b unset True by auto
        then have "(x + row', y + width - col' - 1) \<noteq> p" using p True by auto
        from Ppix[OF that(5) this] Inr b that(6) show ?thesis
          by (simp add: cell_landscape_def)
      qed
    qed
    from draw h a w nz True obtain r0 where
      loop: "for_each (range_py height) (\<lambda>row.
               for_each (range_py width)
                 (cell_landscape font (addr + 1) width x y color None row)) d = (r0, d')"
      by (auto simp: draw_char_def Let_def split: sum.splits prod.splits)
    have "P d'"
    proof (rule for_each_inv[where P = P, OF loop P0])
      fix i t r' t'
      assume i: "i \<in> set (range_py height)" and t: "P t"
        and inner: "for_each (range_py width)
            (cell_landscape font (addr + 1) width x y color None i) t = (r', t')"
      show "P t'"
      proof (rule for_each_inv[where P = P, OF inner t])
        fix j u r'' u'
        assume "j \<in> set (range_py width)" "P u"
          "cell_landscape font (addr + 1) width x y color None i j u = (r'', u')"
        with i show "P u'" using step[of i j u r'' u'] by (simp add: set_range_py)
      qed
    qed
    then show ?thesis by (simp add: P_def)
  next
    case False
    have step: "P t'" if "0 \<le> row'" "row' < height" "0 \<le> col'" "col' < width" "P t"
      "cell_normal font (addr + 1) height x y color None row' col' t = (r', t')"
      for row' col' t r' t'
    proof (cases "bit_normal font (addr + 1) height row' col'")
      case (Inl e)
      with that show ?thesis by (simp add: cell_normal_def)
    next
      case (Inr b)
      show ?thesis
      proof (cases b)
        case False
        with Inr that show ?thesis by (simp add: cell_normal_def)
      next
        case b: True
        have "(row', col') \<noteq> (row, col)" using Inr b unset False by auto
        then have "(x + col', y + row') \<noteq> p" using p False by auto
        from Ppix[OF that(5) this] Inr b that(6) show ?thesis
          by (simp add: cell_normal_def)
      qed
    qed
    from draw h a w nz False obtain r0 where
      loop: "for_each (range_py height) (\<lambda>row.
               for_each (range_py width)
                 (cell_normal font (addr + 1) height x y color None row)) d = (r0, d')"
      by (auto simp: draw_char_def Let_def split: sum.splits prod.splits)
    have "P d'"
    proof (rule for_each_inv[where P = P, OF loop P0])
      fix i t r' t'
      assume i: "i \<in> set (range_py height)" and t: "P t"
        and inner: "for_each (range_py width)
            (cell_normal font (addr + 1) height x y color None i) t = (r', t')"
      show "P t'"
      proof (rule for_each_inv[where P = P, OF inner t])
        fix j u r'' u'
        assume "j \<in> set (range_py width)" "P u"
          "cell_normal font (addr + 1) height x y color None i j u = (r'', u')"
        with i show "P u'" using step[of i j u r'' u'] by (simp add: set_range_py)
      qed
    qed
    then show ?thesis by (simp add: P_def)
  qed
qed

text \<open>
  C7.  The claim fails on \<open>font6x8\<close> in the rotated orientation, for the same reason as
  C6.  In the glyph 6 wide the cell in row 1, column 0 is the packed bit \<open>1 * 6 + 0 = 6\<close>
  of the data, which is unset (the first data byte is 1), but the source tests bit
  \<^verbatim>\<open>col % 8\<close>, bit 0, of that byte and reads the cell as set.  Drawn at (0, 0) over the
  red surface with the background \<^verbatim>\<open>None\<close>, the glyph writes the text colour 1 to the
  pixel \<open>(0 + 1, 0 + 6 - 0 - 1)\<close> of that cell, which was red.
\<close>

theorem transparent_background_packed_bit_written:
  "spec_bit_landscape font6x8 (11 + 1) 6 1 0 = Inr False
   \<and> bit_landscape font6x8 (11 + 1) 6 1 0 = Inr True
   \<and> gram red240x8 (0 + 1, 0 + 6 - 0 - 1) = 0xF800
   \<and> fst (draw_char 65 0 0 red240x8 font6x8 1 None True False) = Inr (Width 6)
   \<and> bus (snd (draw_char 65 0 0 red240x8 font6x8 1 None True False))
       = [SetWindow 0 5 0 5, WritePixels 1 1, SetWindow 1 5 1 5, WritePixels 1 1]
   \<and> gram (snd (draw_char 65 0 0 red240x8 font6x8 1 None True False)) (0 + 1, 0 + 6 - 0 - 1) = 1"
proof -
  have 1: "spec_bit_landscape font6x8 (11 + 1) 6 1 0 = Inr False"
    by (simp add: spec_bit_landscape_def font6x8_def getitem_def and_then_def)
  have 2: "bit_landscape font6x8 (11 + 1) 6 1 0 = Inr True"
    by (simp add: bit_landscape_def font6x8_def getitem_def and_then_def)
  have 3: "gram red240x8 (0 + 1, 0 + 6 - 0 - 1) = 0xF800" by (simp add: red240x8_def)
  have 4: "draw_char 65 0 0 red240x8 font6x8 1 None True False =
      (Inr (Width 6),
       red240x8\<lparr>bus := [SetWindow 0 5 0 5, WritePixels 1 1, SetWindow 1 5 1 5, WritePixels 1 1],
                gram := (gram red240x8)((0, 5) := 1, (1, 5) := 1)\<rparr>)"
    by (simp add: draw_reads font_reads font6x8_def pixel_def red240x8_def)
  from 1 2 3 show ?thesis unfolding 4 by simp
qed

text \<open>
  C1.  The claim fails on \<open>font5x7\<close>: for the letter A, \<^verbatim>\<open>draw_char\<close> returns the width
  5, the byte at the address \<^verbatim>\<open>_get_char_addr\<close> gives, while \<^verbatim>\<open>_printchar\<close> advances
  \<open>x\<close> by 6, the byte before that address, which is what \<^verbatim>\<open>_char_width\<close> reads.
\<close>

theorem draw_char_width_differs_from_advance:
  "fst (draw_char 65 0 0 red240x320 font5x7 1 (Some 0) False False) = Inr (Width 5)
   \<and> char_width (new_writer red240x320 font5x7 7 5) 65 = Inr 6
   \<and> fst (printchar (new_writer red240x320 font5x7 7 5) 65) = Inr ()
   \<and> self_x (snd (printchar (new_writer red240x320 font5x7 7 5) 65))
       = self_x (new_writer red240x320 font5x7 7 5) + 6"
proof -
  have a: "get_char_addr font5x7 65 = Inr 11" by (simp add: font5x7_def font_reads)
  have d: "fst (draw_char 65 x y dd font5x7 1 (Some 0) False False) = Inr (Width 5)" for x y dd
    using a unfolding font5x7_def
    by (simp add: draw_reads getitem_def and_then_def)
  have w: "char_width (new_writer red240x320 font5x7 7 5) 65 = Inr 6"
    by (simp add: char_width_eq new_writer_def a and_then_def) (simp add: font5x7_def getitem_def)
  have p: "printchar (new_writer red240x320 font5x7 7 5) 65 =
      clip_and_draw (new_writer red240x320 font5x7 7 5) 65 6"
    by (simp add: printchar_def w wrap_text_def) (simp add: new_writer_def red240x320_def)
  have "fst (clip_and_draw (new_writer red240x320 font5x7 7 5) 65 6) = Inr ()
     \<and> self_x (snd (clip_and_draw (new_writer red240x320 font5x7 7 5) 65 6)) = 6"
    using clip_and_draw_drawn[of "new_writer red240x320 font5x7 7 5" 65 "Width 5" 6]
    by (simp add: new_writer_def red240x320_def d)
  with d[of 0 0 red240x320] w p show ?thesis by (simp add: new_writer_def)
qed

text \<open>
  C6.  The claim fails on \<open>font5x7\<close> in the rotated orientation: for the cell in row 1,
  column 0 of the glyph 5 wide, the packed bit \<open>1 * 5 + 0 = 5\<close> is set, but the source
  tests bit \<^verbatim>\<open>col % 8\<close>, that is bit 0, of the byte, and reads the cell as unset; the glyph
  drawn at (10, 10) over a red surface leaves the surface as it was, and the pixel
  \<open>(10 + 1, 10 + 5 - 0 - 1)\<close> red.
\<close>

theorem landscape_bit_index_slip:
  "spec_bit_landscape font5x7 12 5 1 0 = Inr True
   \<and> bit_landscape font5x7 12 5 1 0 = Inr False
   \<and> draw_char 65 10 10 red240x320 font5x7 1 None True False = (Inr (Width 5), red240x320)
   \<and> gram (snd (draw_char 65 10 10 red240x320 font5x7 1 None True False)) (10 + 1, 10 + 5 - 0 - 1)
       = 0xF800"
proof -
  have 1: "spec_bit_landscape font5x7 12 5 1 0 = Inr True"
    by (simp add: spec_bit_landscape_def font5x7_def getitem_def and_then_def)
  have 2: "bit_landscape font5x7 12 5 1 0 = Inr False"
    by (simp add: bit_landscape_def font5x7_def getitem_def and_then_def)
  have 3: "draw_char 65 10 10 red240x320 font5x7 1 None True False = (Inr (Width 5), red240x320)"
    by (simp add: draw_reads font_reads font5x7_def)
  from 1 2 3 show ?thesis by (simp add: red240x320_def)
qed

section \<open>Printing "AB" from (238, 0)\<close>

lemma w238_more:
  "self_landscape w238 = False" "self_text_color w238 = 1" "self_reverse w238 = False"
  by (simp_all add: w238_def set_textpos_def new_writer_def)

lemma w238_after_A_fields:
  "self_x w238_after_A = 6" "self_y w238_after_A = 0" "self_height w238_after_A = 8"
  "self_font w238_after_A = font6x8"
  "d_width (self_device w238_after_A) = 240" "d_height (self_device w238_after_A) = 8"
proof -
  let ?c = "clear_screen (w238\<lparr>self_x := 0, self_y := 8\<rparr>)"
  have cw: "char_width w238 65 = Inr 6"
    by (rule char_width_font6x8) (simp add: w238_fields)
  have wr: "wrap_text w238 6 = ?c"
    by (simp add: wrap_text_def Let_def w238_fields)
  have pc: "printchar w238 65 = clip_and_draw ?c 65 6"
    by (simp add: printchar_def cw wr)
  have f: "self_font ?c = font6x8" "self_x ?c = 0" "self_y ?c = 0" "self_height ?c = 8"
    "d_width (self_device ?c) = 240" "d_height (self_device ?c) = 8"
    "self_landscape ?c = False"
    by (simp_all add: clear_screen_def w238_fields w238_more)
  have dr: "fst (draw_char 65 (self_x ?c) (self_y ?c) (self_device ?c) (self_font ?c)
           (self_text_color ?c) (self_bgcolor ?c) (self_landscape ?c) (self_reverse ?c))
         = Inr (Width 6)"
    unfolding f by (rule fst_draw_char_font6x8)
  note cd = clip_and_draw_drawn[of ?c 65 "Width 6" 6, OF _ _ dr]
  have cd': "self_x (snd (clip_and_draw ?c 65 6)) = self_x ?c + 6"
    "self_y (snd (clip_and_draw ?c 65 6)) = self_y ?c"
    "self_font (snd (clip_and_draw ?c 65 6)) = self_font ?c"
    "self_device (snd (clip_and_draw ?c 65 6)) =
       snd (draw_char 65 (self_x ?c) (self_y ?c) (self_device ?c) (self_font ?c)
           (self_text_color ?c) (self_bgcolor ?c) (self_landscape ?c) (self_reverse ?c))"
    using cd by (simp_all add: f)
  show "self_x w238_after_A = 6" "self_y w238_after_A = 0" "self_font w238_after_A = font6x8"
    by (simp_all add: w238_after_A_def pc cd' f)
  have "self_height (snd (clip_and_draw s c w)) = self_height s" for s c w
    by (simp add: clip_and_draw_def split: prod.splits sum.splits)
  then show "self_height w238_after_A = 8"
    by (simp add: w238_after_A_def pc f)
  have "d_width (self_device w238_after_A) = d_width (self_device ?c)
      \<and> d_height (self_device w238_after_A) = d_height (self_device ?c)"
    unfolding w238_after_A_def pc cd'(4)
    by (rule draw_char_dims[of 65 "self_x ?c" "self_y ?c" "self_device ?c" "self_font ?c"
          "self_text_color ?c" "self_bgcolor ?c" "self_landscape ?c" "self_reverse ?c"
          "fst (draw_char 65 (self_x ?c) (self_y ?c) (self_device ?c) (self_font ?c)
           (self_text_color ?c) (self_bgcolor ?c) (self_landscape ?c) (self_reverse ?c))"])
       simp
  then show "d_width (self_device w238_after_A) = 240" "d_height (self_device w238_after_A) = 8"
    by (simp_all add: f)
qed

text \<open>
  C5, as the source has it.  On a surface 240 wide and 8 high, with \<^verbatim>\<open>self.height\<close> 8 and
  both letters 6 wide, printing "AB" from (238, 0) wraps the letter A, since
  \<open>238 + 6 > 240\<close>: the screen is cleared, A is drawn at (0, 0) on the cleared surface, B
  is drawn at (6, 0) with no further wrap, and the cursor ends at (12, 0).  Should
  \<^verbatim>\<open>draw_char\<close> raise, the cursor stays where the letter was to be drawn.
\<close>

theorem printstring_AB_wraps_A:
  assumes "self_height self = 8"
    and "d_width (self_device self) = 240" and "d_height (self_device self) = 8"
    and "self_x self = 238" and "self_y self = 0"
    and "char_width self 65 = Inr 6" and "char_width self 66 = Inr 6"
  shows "printstring self [65, 66] =
     (let cleared = clear_screen (self\<lparr>self_x := 0, self_y := 8\<rparr>) in
      case draw_char 65 0 0 (self_device cleared) (self_font self) (self_text_color self)
             (self_bgcolor self) (self_landscape self) (self_reverse self) of
        (Inl e, d) \<Rightarrow> (Inl e, cleared\<lparr>self_device := d\<rparr>)
      | (Inr _, d) \<Rightarrow>
          (case draw_char 66 6 0 d (self_font self) (self_text_color self)
                  (self_bgcolor self) (self_landscape self) (self_reverse self) of
             (Inl e, d') \<Rightarrow> (Inl e, cleared\<lparr>self_device := d', self_x := 6\<rparr>)
           | (Inr _, d') \<Rightarrow> (Inr (), cleared\<lparr>self_device := d', self_x := 12\<rparr>)))"
proof -
  let ?cleared = "clear_screen (self\<lparr>self_x := 0, self_y := 8\<rparr>)"
  let ?dA = "draw_char 65 0 0 (self_device ?cleared) (self_font self) (self_text_color self)
             (self_bgcolor self) (self_landscape self) (self_reverse self)"
  have wrapA: "wrap_text self 6 = ?cleared"
    using assms by (simp add: wrap_text_def Let_def)
  have stepA: "printchar self 65 =
      (case ?dA of (Inl e, d) \<Rightarrow> (Inl e, ?cleared\<lparr>self_device := d\<rparr>)
       | (Inr _, d) \<Rightarrow> (Inr (), ?cleared\<lparr>self_device := d, self_x := 6\<rparr>))"
    using assms
    by (simp add: printchar_def wrapA clip_and_draw_def)
       (simp add: clear_screen_def split: prod.splits sum.splits)
  show ?thesis
  proof (cases ?dA)
    case (Pair rA d)
    note dims = draw_char_dims[OF Pair]
    show ?thesis
    proof (cases rA)
      case (Inl e)
      with Pair stepA show ?thesis by (simp add: printstring_def Let_def)
    next
      case (Inr u)
      let ?sA = "?cleared\<lparr>self_device := d, self_x := 6\<rparr>"
      have cw: "char_width ?sA 66 = Inr 6"
        using assms(7) char_width_cong[of ?sA self 66] by (simp add: clear_screen_def)
      have wrapB: "wrap_text ?sA 6 = ?sA"
        using dims assms by (simp add: wrap_text_def clear_screen_def)
      have stepB: "printchar ?sA 66 =
        (case draw_char 66 6 0 d (self_font self) (self_text_color self)
                  (self_bgcolor self) (self_landscape self) (self_reverse self) of
             (Inl e, d') \<Rightarrow> (Inl e, ?cleared\<lparr>self_device := d', self_x := 6\<rparr>)
           | (Inr _, d') \<Rightarrow> (Inr (), ?cleared\<lparr>self_device := d', self_x := 12\<rparr>))"
        using dims assms
        by (simp add: printchar_def cw wrapB clip_and_draw_def)
           (simp add: clear_screen_def split: prod.splits sum.splits)
      show ?thesis
        using Pair Inr stepA stepB
        by (simp add: printstring_def Let_def split: prod.splits sum.splits)
    qed
  qed
qed

theorem printstring_AB_wraps_A_witness:
  "self_x w238 = 238 \<and> self_y w238 = 0 \<and> self_height w238 = 8
   \<and> d_width (self_device w238) = 240 \<and> d_height (self_device w238) = 8
   \<and> char_width w238 65 = Inr 6 \<and> char_width w238 66 = Inr 6
   \<and> fst (printstring w238 [65, 66]) = Inr ()
   \<and> self_x (snd (printstring w238 [65, 66])) = 12
   \<and> self_y (snd (printstring w238 [65, 66])) = 0
   \<and> self_device (snd (printstring w238 [65, 66])) =
       snd (draw_char 66 6 0
             (snd (draw_char 65 0 0 (fill red240x8 0) font6x8 1 (Some 0) False False))
             font6x8 1 (Some 0) False False)"
proof -
  have cw: "char_width w238 65 = Inr 6" "char_width w238 66 = Inr 6"
    by (rule char_width_font6x8, simp add: w238_fields)+
  obtain dA where dA: "draw_char 65 0 0 (fill red240x8 0) font6x8 1 (Some 0) False False
      = (Inr (Width 6), dA)"
    using fst_draw_char_font6x8[of 65 0 0 "fill red240x8 0" 1 "Some 0" False]
    by (metis prod.collapse)
  obtain dB where dB: "draw_char 66 6 0 dA font6x8 1 (Some 0) False False
      = (Inr (Width 6), dB)"
    using fst_draw_char_font6x8[of 66 6 0 dA 1 "Some 0" False]
    by (metis prod.collapse)
  have dev: "self_device w238 = red240x8"
    by (simp add: w238_def set_textpos_def new_writer_def)
  have "printstring w238 [65, 66] =
      (Inr (), (clear_screen (w238\<lparr>self_x := 0, self_y := 8\<rparr>))\<lparr>self_device := dB, self_x := 12\<rparr>)"
    using printstring_AB_wraps_A[of w238, OF w238_fields(3,4,5,1,2) cw]
    by (simp add: Let_def w238_fields w238_more clear_screen_def dev dA dB)
  then show ?thesis
    using cw by (simp add: w238_fields clear_screen_def dA dB)
qed

text \<open>
  C5, as the claim words it, fails: after A has been printed from (238, 0) the step for B
  does not wrap and does not clear the screen, and B is drawn at (6, 0), not at (0, 0).
\<close>

theorem printstring_AB_B_not_at_origin:
  "char_width w238_after_A 66 = Inr 6
   \<and> printchar w238_after_A 66 = clip_and_draw (wrap_text w238_after_A 6) 66 6
   \<and> wrap_text w238_after_A 6 = w238_after_A
   \<and> self_x (wrap_text w238_after_A 6) = 6 \<and> self_y (wrap_text w238_after_A 6) = 0
   \<and> (self_x (wrap_text w238_after_A 6), self_y (wrap_text w238_after_A 6)) \<noteq> (0, 0)"
proof -
  have cw: "char_width w238_after_A 66 = Inr 6"
    by (rule char_width_font6x8) (simp add: w238_after_A_fields)
  have wr: "wrap_text w238_after_A 6 = w238_after_A"
    by (simp add: wrap_text_def w238_after_A_fields)
  have pc: "printchar w238_after_A 66 = clip_and_draw (wrap_text w238_after_A 6) 66 6"
    by (simp add: printchar_def cw)
  from cw wr pc show ?thesis by (simp add: w238_after_A_fields)
qed

end
